theory Spec2Isabelle
  imports Main "HOL-Library.Word" "HOL-Library.Sublist"
begin

section \<open>daytime: a moment within a day, in seconds since midnight\<close>

text \<open>
  The Go package \<open>daytime\<close> (file \<open>daytime.go\<close>) is embedded function by function.
  \<^item> \<open>Daytime\<close> is Go's \<open>uint32\<close>: a \<open>32 word\<close>; comparisons on it are unsigned.
  \<^item> Go's \<open>int\<close> is taken at its 64-bit width. It is modelled as an \<open>int\<close> with the
    two's-complement wrap-around written out (\<open>int_wrap\<close>) at the operations whose
    result can leave the 64-bit range.
  \<^item> Go's \<open>/\<close> and \<open>%\<close> truncate towards zero; HOL's \<open>div\<close> and \<open>mod\<close> round
    towards minus infinity. Both are kept apart: \<open>go_quo\<close> and \<open>go_rem\<close> are Go's.
  \<^item> A \<open>(value, error)\<close> result is a sum: \<open>Inl\<close> the error, \<open>Inr\<close> the value.
\<close>

subsection \<open>Go's machine integers\<close>

definition int_wrap :: "int \<Rightarrow> int" where
  "int_wrap x = signed_take_bit 63 x"

definition go_add :: "int \<Rightarrow> int \<Rightarrow> int" where
  "go_add a b = int_wrap (a + b)"

definition go_sub :: "int \<Rightarrow> int \<Rightarrow> int" where
  "go_sub a b = int_wrap (a - b)"

definition go_mul :: "int \<Rightarrow> int \<Rightarrow> int" where
  "go_mul a b = int_wrap (a * b)"

definition go_neg :: "int \<Rightarrow> int" where
  "go_neg a = int_wrap (- a)"

text \<open>Go's \<open>a / b\<close> and \<open>a % b\<close> for \<open>b \<noteq> 0\<close>: the quotient is truncated towards zero
  and the remainder has the sign of the dividend.\<close>

definition go_quo :: "int \<Rightarrow> int \<Rightarrow> int" where
  "go_quo a b = int_wrap (sgn a * sgn b * (\<bar>a\<bar> div \<bar>b\<bar>))"

definition go_rem :: "int \<Rightarrow> int \<Rightarrow> int" where
  "go_rem a b = sgn a * (\<bar>a\<bar> mod \<bar>b\<bar>)"

subsection \<open>The value type and its constants\<close>

type_synonym Daytime = "32 word"

definition secondsInDay :: int where
  "secondsInDay = 86400"

definition hoursInDay :: int where
  "hoursInDay = 24"

definition StartOfDay :: Daytime where
  "StartOfDay = 0"

definition EndOfDay :: Daytime where
  "EndOfDay = 86400"

text \<open>The conversions \<open>int(d)\<close> and \<open>Daytime(n)\<close> of the source.\<close>

definition to_int :: "Daytime \<Rightarrow> int" where
  "to_int d = uint d"

definition to_Daytime :: "int \<Rightarrow> Daytime" where
  "to_Daytime n = word_of_int n"

definition Valid :: "Daytime \<Rightarrow> bool" where
  "Valid d = (d \<le> EndOfDay)"

definition IsEndOfDay :: "Daytime \<Rightarrow> bool" where
  "IsEndOfDay d = (d = EndOfDay)"

definition IsInDay :: "Daytime \<Rightarrow> bool" where
  "IsInDay d = (d < EndOfDay)"

subsection \<open>Errors\<close>

text \<open>The sentinel errors of the package (the \<open>var\<close> block of \<open>errors.New\<close> values): the
  root causes that \<open>errors.Is\<close> matches.\<close>

datatype root_cause =
    ErrDivisionByZero
  | ErrInvalidTimeComponent
  | ErrInvalidFormat
  | ErrValueOutOfRange
  | ErrInvalidModulus
  | ErrEndOfDayExceeded

text \<open>The \<open>value any\<close> field of \<open>Error\<close> holds a string or an \<open>int\<close> in this package.\<close>

datatype any = AnyString string | AnyInt int

record Error =
  op :: string
  val :: any
  err :: root_cause

text \<open>\<open>errorf\<close> wraps a root cause with its context. Every call of the package passes one of
  the sentinels, which is neither \<open>nil\<close> nor already an \<open>Error\<close>, so the two early returns
  of the source are not reachable and the result is always the new \<open>Error\<close>.\<close>

definition errorf :: "string \<Rightarrow> any \<Rightarrow> root_cause \<Rightarrow> Error" where
  "errorf o' v e = \<lparr>op = o', val = v, err = e\<rparr>"

definition Unwrap :: "Error \<Rightarrow> root_cause" where
  "Unwrap e = err e"

text \<open>\<open>errors.Is(e, target)\<close> for an \<open>Error\<close> of the package and a sentinel: the
  \<open>Error\<close> is not itself a sentinel, so the match is decided by what it unwraps to.\<close>

definition errors_Is :: "Error \<Rightarrow> root_cause \<Rightarrow> bool" where
  "errors_Is e target = (Unwrap e = target)"

subsection \<open>Components and text\<close>

definition Clock :: "Daytime \<Rightarrow> int \<times> int \<times> int" where
  "Clock d =
     (if d = EndOfDay then (hoursInDay, 0, 0)
      else
        let sec = to_int d;
            hour = go_quo sec 3600;
            minute = go_quo (go_rem sec 3600) 60;
            second = go_rem sec 60
        in (hour, minute, second))"

text \<open>\<open>fmt.Sprintf\<close> with the verb \<open>%02d\<close>: the decimal digits, padded with zeros to two
  characters, the sign of a negative number counting as one of them.\<close>

definition digit_char :: "nat \<Rightarrow> char" where
  "digit_char n = char_of (48 + n)"

function decimal :: "nat \<Rightarrow> string" where
  "decimal n = (if n < 10 then [digit_char n] else decimal (n div 10) @ [digit_char (n mod 10)])"
  by pat_completeness auto
termination
  by (relation "measure id") auto

definition fmt_02d :: "int \<Rightarrow> string" where
  "fmt_02d n =
     (if n < 0 then CHR ''-'' # decimal (nat (- n))
      else let ds = decimal (nat n) in if length ds < 2 then CHR ''0'' # ds else ds)"

text \<open>\<open>fmt.Sprintf("%02d:%02d:%02d", hour, minute, second)\<close>.\<close>

definition fmt_clock :: "int \<Rightarrow> int \<Rightarrow> int \<Rightarrow> string" where
  "fmt_clock hour minute second =
     fmt_02d hour @ '':'' @ fmt_02d minute @ '':'' @ fmt_02d second"

definition String :: "Daytime \<Rightarrow> string" where
  "String d =
     (if \<not> Valid d then ''invalid''
      else if d = EndOfDay then ''24:00:00''
      else case Clock d of (hour, minute, second) \<Rightarrow> fmt_clock hour minute second)"

subsection \<open>Comparison\<close>

definition Before :: "Daytime \<Rightarrow> Daytime \<Rightarrow> bool" where
  "Before d other =
     (if d = EndOfDay then False
      else if other = EndOfDay then True
      else d < other)"

definition Compare :: "Daytime \<Rightarrow> Daytime \<Rightarrow> int" where
  "Compare d other =
     (if d = other then 0
      else if Before d other then - 1
      else 1)"

definition After :: "Daytime \<Rightarrow> Daytime \<Rightarrow> bool" where
  "After d other = Before other d"

definition Equal :: "Daytime \<Rightarrow> Daytime \<Rightarrow> bool" where
  "Equal d other = (d = other)"

definition Between :: "Daytime \<Rightarrow> Daytime \<Rightarrow> Daytime \<Rightarrow> bool" where
  "Between d start end' =
     (if \<not> Valid d \<or> \<not> Valid start \<or> \<not> Valid end' then False
      else if start = end' then d = start
      else if Before start end' then \<not> Before d start \<and> \<not> After d end'
      else \<not> Before d start \<or> \<not> After d end')"

subsection \<open>Arithmetic\<close>

text \<open>\<open>Add\<close>: the receiver first, then the seconds; the result is the pair
  (daytime, days crossed).\<close>

definition Add :: "Daytime \<Rightarrow> int \<Rightarrow> Daytime \<times> int" where
  "Add d seconds =
     (if \<not> Valid d then (d, 0)
      else
        let baseValue = to_int d;
            total = go_add baseValue seconds;
            days0 = go_quo total secondsInDay;
            remainder0 = go_rem total secondsInDay;
            remainder = (if remainder0 < 0 then remainder0 + secondsInDay else remainder0);
            days = (if remainder0 < 0 then days0 - 1 else days0)
        in if total = secondsInDay then (EndOfDay, 0)
           else if remainder = 0 then (StartOfDay, days)
           else (to_Daytime remainder, days))"

definition Sub :: "Daytime \<Rightarrow> int \<Rightarrow> Daytime \<times> int" where
  "Sub d seconds = Add d (go_neg seconds)"

definition Diff :: "Daytime \<Rightarrow> Daytime \<Rightarrow> int \<times> int" where
  "Diff d other =
     (if \<not> Valid d \<or> \<not> Valid other then (0, 0)
      else
        let baseSeconds = (if d = EndOfDay \<and> d \<noteq> other then secondsInDay else to_int d);
            otherSeconds = (if other = EndOfDay \<and> d \<noteq> other then secondsInDay else to_int other);
            diff = go_sub baseSeconds otherSeconds;
            days = go_quo diff secondsInDay;
            seconds = go_rem diff secondsInDay
        in if seconds < 0 then (seconds + secondsInDay, days - 1) else (seconds, days))"

definition Mul :: "Daytime \<Rightarrow> int \<Rightarrow> Daytime \<times> int" where
  "Mul d factor =
     (if \<not> Valid d then (d, 0)
      else
        let baseValue = to_int d;
            total = go_mul baseValue factor;
            days0 = go_quo total secondsInDay;
            remainder0 = go_rem total secondsInDay;
            remainder = (if remainder0 < 0 then remainder0 + secondsInDay else remainder0);
            days = (if remainder0 < 0 then days0 - 1 else days0)
        in if total = secondsInDay then (EndOfDay, 0)
           else if remainder = 0 then (StartOfDay, days)
           else (to_Daytime remainder, days))"

text \<open>\<open>Div\<close> returns (quotient, remainder) or the error; \<open>Mod\<close> the remainder or the
  error. The zero values that Go returns beside a non-nil error are not part of \<open>Inl\<close>.\<close>

definition Div :: "Daytime \<Rightarrow> int \<Rightarrow> Error + Daytime \<times> int" where
  "Div d divisor =
     (if divisor = 0 then Inl (errorf ''Div'' (AnyInt divisor) ErrDivisionByZero)
      else if \<not> Valid d then Inr (d, 0)
      else
        let value = (if d = EndOfDay then secondsInDay else to_int d);
            quotient = go_quo value divisor;
            remainder = go_rem value divisor
        in if quotient < 0 \<or> quotient > secondsInDay
           then Inl (errorf ''Div'' (AnyInt quotient) ErrValueOutOfRange)
           else Inr (to_Daytime quotient, remainder))"

definition Mod :: "Daytime \<Rightarrow> int \<Rightarrow> Error + Daytime" where
  "Mod d modulus =
     (if modulus \<le> 0 then Inl (errorf ''Mod'' (AnyInt modulus) ErrInvalidModulus)
      else if \<not> Valid d then Inr d
      else
        let value = (if d = EndOfDay then secondsInDay else to_int d);
            result0 = go_rem value modulus;
            result = (if result0 < 0 then result0 + modulus else result0)
        in Inr (to_Daytime result))"

subsection \<open>Parsing\<close>

text \<open>
  The two library functions that the parsers call are modelled on the bytes of the input.
  \<open>strconv.Atoi\<close> is \<open>strconv.ParseInt\<close> in base 10 at the width of \<open>int\<close>: an optional
  sign, then one or more decimal digits and nothing else, the value within the 64-bit
  range.
\<close>

definition is_digit :: "char \<Rightarrow> bool" where
  "is_digit c = (c \<in> set ''0123456789'')"

definition digit_val :: "char \<Rightarrow> nat" where
  "digit_val c = of_char c - 48"

definition dec_val :: "string \<Rightarrow> nat" where
  "dec_val ds = foldl (\<lambda>n c. n * 10 + digit_val c) 0 ds"

definition ParseInt :: "string \<Rightarrow> int option" where
  "ParseInt s =
     (case s of
        [] \<Rightarrow> None
      | c # cs \<Rightarrow>
          let neg = (c = CHR ''-'');
              body = (if c = CHR ''+'' \<or> c = CHR ''-'' then cs else s)
          in if body = [] \<or> \<not> list_all is_digit body then None
             else
               let un = int (dec_val body)
               in if \<not> neg \<and> un \<ge> 2 ^ 63 then None
                  else if neg \<and> un > 2 ^ 63 then None
                  else Some (if neg then - un else un))"

definition Atoi :: "string \<Rightarrow> int option" where
  "Atoi s = ParseInt s"

text \<open>
  \<open>fmt.Sscanf(s, "%d:%d:%d", &hour, &minute, &second)\<close>. The verb \<open>%d\<close> first
  discards leading white space (\<open>SkipSpace\<close>; a newline there is an error, since
  \<open>Sscanf\<close> does not treat newlines as space), then accepts one optional sign and
  the longest run of decimal digits, which must not be empty, and hands
  the token to \<open>ParseInt\<close>. A literal of the format must match the next input byte
  exactly. Input left over after the last verb is not looked at.
  \<open>space_runes\<close> is \<open>fmt\<close>'s table of white-space code points in UTF-8.
\<close>

definition space_runes :: "string list" where
  "space_runes =
     [[CHR 0x09], [CHR 0x0A], [CHR 0x0B], [CHR 0x0C], [CHR 0x0D], [CHR 0x20],
      [CHR 0xC2, CHR 0x85], [CHR 0xC2, CHR 0xA0], [CHR 0xE1, CHR 0x9A, CHR 0x80],
      [CHR 0xE2, CHR 0x80, CHR 0x80], [CHR 0xE2, CHR 0x80, CHR 0x81],
      [CHR 0xE2, CHR 0x80, CHR 0x82], [CHR 0xE2, CHR 0x80, CHR 0x83],
      [CHR 0xE2, CHR 0x80, CHR 0x84], [CHR 0xE2, CHR 0x80, CHR 0x85],
      [CHR 0xE2, CHR 0x80, CHR 0x86], [CHR 0xE2, CHR 0x80, CHR 0x87],
      [CHR 0xE2, CHR 0x80, CHR 0x88], [CHR 0xE2, CHR 0x80, CHR 0x89],
      [CHR 0xE2, CHR 0x80, CHR 0x8A], [CHR 0xE2, CHR 0x80, CHR 0xA8],
      [CHR 0xE2, CHR 0x80, CHR 0xA9], [CHR 0xE2, CHR 0x80, CHR 0xAF],
      [CHR 0xE2, CHR 0x81, CHR 0x9F], [CHR 0xE3, CHR 0x80, CHR 0x80]]"

text \<open>The number of bytes of the white-space rune at the head of the input, 0 when the
  input does not start with one.\<close>

definition space_width :: "string \<Rightarrow> nat" where
  "space_width inp =
     (case find (\<lambda>p. prefix p inp) space_runes of None \<Rightarrow> 0 | Some p \<Rightarrow> length p)"

function SkipSpace :: "string \<Rightarrow> string option" where
  "SkipSpace inp =
     (if inp = [] then Some []
      else if hd inp = CHR 0x0A then None
      else if space_width inp = 0 then Some inp
      else SkipSpace (drop (space_width inp) inp))"
  by pat_completeness auto
termination
  by (relation "measure length") auto

definition scanInt :: "string \<Rightarrow> (int \<times> string) option" where
  "scanInt inp =
     (case SkipSpace inp of
        None \<Rightarrow> None
      | Some [] \<Rightarrow> None
      | Some (c # cs) \<Rightarrow>
          let signed = (c = CHR ''+'' \<or> c = CHR ''-'');
              sign = (if signed then [c] else []);
              r = (if signed then cs else c # cs);
              digits = takeWhile is_digit r;
              rest = dropWhile is_digit r
          in if digits = [] then None
             else (case ParseInt (sign @ digits) of
                     None \<Rightarrow> None
                   | Some v \<Rightarrow> Some (v, rest)))"

definition literal :: "char \<Rightarrow> string \<Rightarrow> string option" where
  "literal f inp = (case inp of [] \<Rightarrow> None | c # cs \<Rightarrow> if c = f then Some cs else None)"

text \<open>The result is \<open>Some\<close> exactly when \<open>Sscanf\<close> returns \<open>n = 3\<close> and no error.\<close>

definition Sscanf_d_d_d :: "string \<Rightarrow> (int \<times> int \<times> int) option" where
  "Sscanf_d_d_d s =
     (case scanInt s of None \<Rightarrow> None | Some (hour, r1) \<Rightarrow>
      case literal CHR '':'' r1 of None \<Rightarrow> None | Some r2 \<Rightarrow>
      case scanInt r2 of None \<Rightarrow> None | Some (minute, r3) \<Rightarrow>
      case literal CHR '':'' r3 of None \<Rightarrow> None | Some r4 \<Rightarrow>
      case scanInt r4 of None \<Rightarrow> None | Some (second, r5) \<Rightarrow>
      Some (hour, minute, second))"

definition parseSeconds :: "string \<Rightarrow> Error + int" where
  "parseSeconds s =
     (case Atoi s of
        None \<Rightarrow> Inl (errorf ''parseSeconds'' (AnyString s) ErrInvalidFormat)
      | Some sec \<Rightarrow>
          if sec < 0 \<or> sec > secondsInDay
          then Inl (errorf ''parseSeconds'' (AnyInt sec) ErrValueOutOfRange)
          else Inr sec)"

definition parseTimeString :: "string \<Rightarrow> Error + int" where
  "parseTimeString s =
     (if length s \<noteq> 8 then Inl (errorf ''parseTimeString'' (AnyString s) ErrInvalidFormat)
      else case Sscanf_d_d_d s of
        None \<Rightarrow> Inl (errorf ''parseTimeString'' (AnyString s) ErrInvalidFormat)
      | Some (hour, minute, second) \<Rightarrow>
          if hour < 0 \<or> hour > hoursInDay \<or> minute < 0 \<or> minute > 59 \<or>
             second < 0 \<or> second > 59
          then Inl (errorf ''parseTimeString''
                      (AnyString (fmt_clock hour minute second)) ErrInvalidTimeComponent)
          else if hour = hoursInDay \<and> (minute \<noteq> 0 \<or> second \<noteq> 0)
          then Inl (errorf ''parseTimeString''
                      (AnyString (fmt_clock hour minute second)) ErrEndOfDayExceeded)
          else
            let total = hour * 3600 + minute * 60 + second
            in if total > secondsInDay
               then Inl (errorf ''parseTimeString''
                           (AnyString (fmt_clock hour minute second)) ErrValueOutOfRange)
               else Inr total)"

definition Parse :: "string \<Rightarrow> Error + Daytime" where
  "Parse s =
     (if s = [] then Inl (errorf ''Parse'' (AnyString s) ErrInvalidFormat)
      else case parseSeconds s of
        Inr sec \<Rightarrow> Inr (to_Daytime sec)
      | Inl e1 \<Rightarrow>
          (case parseTimeString s of
             Inr sec \<Rightarrow> Inr (to_Daytime sec)
           | Inl e2 \<Rightarrow> Inl (errorf ''Parse'' (AnyString s) ErrInvalidFormat)))"

text \<open>
  Modelled from the spec: \<open>UnmarshalText\<close> is exercised by the tests but is not defined in
  \<open>daytime.go\<close>. The spec: it parses with the two-strategy \<open>Parse\<close>; any failure is
  collapsed to the single root cause \<open>InvalidFormat\<close>, and the receiver is left at its zero
  value \<open>StartOfDay\<close> on failure. The result is the receiver after the call and the root
  cause of the error, \<open>None\<close> for no error.
\<close>

definition UnmarshalText :: "Daytime \<Rightarrow> string \<Rightarrow> Daytime \<times> root_cause option" where
  "UnmarshalText d bytes =
     (case Parse bytes of
        Inl e \<Rightarrow> (StartOfDay, Some ErrInvalidFormat)
      | Inr v \<Rightarrow> (v, None))"

section \<open>Properties\<close>

subsection \<open>Machine integers\<close>

lemma int_wrap_range: "- (2 ^ 63) \<le> int_wrap x \<and> int_wrap x < 2 ^ 63"
  using signed_take_bit_int_less_exp [of 63 x]
    signed_take_bit_int_greater_eq_minus_exp [of 63 x]
  by (simp add: int_wrap_def)

lemma int_wrap_id: "- (2 ^ 63) \<le> x \<Longrightarrow> x < 2 ^ 63 \<Longrightarrow> int_wrap x = x"
  by (simp add: int_wrap_def signed_take_bit_int_eq_self)

lemma int_wrap_mod: "int_wrap x = (x + 2 ^ 63) mod 2 ^ 64 - 2 ^ 63"
  by (simp add: int_wrap_def signed_take_bit_eq_take_bit_shift take_bit_eq_mod)

lemma int_wrap_eq_iff:
  assumes "- (2 ^ 63) \<le> x" "x < 2 ^ 64" "0 \<le> c" "c < 2 ^ 63"
  shows "int_wrap x = c \<longleftrightarrow> x = c"
proof (cases "x < 2 ^ 63")
  case True
  then show ?thesis using assms by (simp add: int_wrap_id)
next
  case False
  then have "(x + 2 ^ 63) mod 2 ^ 64 = x + 2 ^ 63 - 2 ^ 64"
    using assms(2) by (simp add: mod_pos_geq mod_pos_pos_trivial)
  then have "int_wrap x = x - 2 ^ 64" by (simp add: int_wrap_mod)
  then show ?thesis using False assms by simp
qed

lemma go_quo_nonneg: "0 \<le> a \<Longrightarrow> a < 2 ^ 63 \<Longrightarrow> 0 < b \<Longrightarrow> go_quo a b = a div b"
proof -
  assume a: "0 \<le> a" "a < 2 ^ 63" and b: "0 < b"
  have "a div b \<le> a"
    using a by (cases "a = 0") (simp_all add: int_div_le_self)
  moreover have "0 \<le> a div b" using a b by (simp add: pos_imp_zdiv_nonneg_iff)
  ultimately have "int_wrap (a div b) = a div b"
    using a by (intro int_wrap_id) auto
  moreover have "sgn a * sgn b * (\<bar>a\<bar> div \<bar>b\<bar>) = a div b"
    using a b by (cases "a = 0") (simp_all add: sgn_if)
  ultimately show ?thesis by (simp add: go_quo_def)
qed

lemma go_rem_nonneg: "0 \<le> a \<Longrightarrow> 0 < b \<Longrightarrow> go_rem a b = a mod b"
  by (cases "a = 0") (simp_all add: go_rem_def sgn_if)

lemma go_rem_neg: "a < 0 \<Longrightarrow> 0 < b \<Longrightarrow> go_rem a b = (if a mod b = 0 then 0 else a mod b - b)"
  by (simp add: go_rem_def sgn_if zmod_zminus1_eq_if)

lemma go_quo_neg:
  assumes "a < 0" "- (2 ^ 63) \<le> a" "0 < b"
  shows "go_quo a b = (if a mod b = 0 then a div b else a div b + 1)"
proof -
  have q: "sgn a * sgn b * (\<bar>a\<bar> div \<bar>b\<bar>) = - ((- a) div b)"
    using assms by (simp add: sgn_if)
  have v: "- ((- a) div b) = (if a mod b = 0 then a div b else a div b + 1)"
    using assms by (simp add: zdiv_zminus1_eq_if)
  have lo: "a \<le> a div b"
    using zdiv_mono2_neg [of a 1 b] assms by simp
  have hi: "a div b < 0" using assms by (simp add: div_neg_pos_less0)
  have "int_wrap (if a mod b = 0 then a div b else a div b + 1)
        = (if a mod b = 0 then a div b else a div b + 1)"
    using lo hi assms by (intro int_wrap_id) (auto split: if_splits)
  then show ?thesis using q v by (simp add: go_quo_def)
qed

subsection \<open>Validity and conversions\<close>

lemma Valid_iff: "Valid d \<longleftrightarrow> to_int d \<le> 86400"
  by (simp add: Valid_def EndOfDay_def to_int_def word_le_def)

lemma to_int_nonneg: "0 \<le> to_int d"
  by (simp add: to_int_def)

lemma to_int_upper: "to_int d < 2 ^ 32"
  using uint_bounded [of d] by (simp add: to_int_def)

lemma to_int_EndOfDay: "to_int EndOfDay = 86400"
  by (simp add: to_int_def EndOfDay_def)

lemma to_int_StartOfDay: "to_int StartOfDay = 0"
  by (simp add: to_int_def StartOfDay_def)

lemma to_int_inject: "to_int a = to_int b \<longleftrightarrow> a = b"
  by (simp add: to_int_def word_uint_eq_iff)

lemma to_int_to_Daytime: "0 \<le> n \<Longrightarrow> n < 2 ^ 32 \<Longrightarrow> to_int (to_Daytime n) = n"
  by (simp add: to_int_def to_Daytime_def uint_word_of_int take_bit_int_eq_self)

lemma to_Daytime_to_int: "to_Daytime (to_int d) = d"
  by (simp add: to_int_def to_Daytime_def)

subsection \<open>Add: the floored normalisation\<close>

text \<open>What \<open>Add\<close> computes on a valid receiver, in terms of the total \<open>T\<close> and of HOL's
  floored \<open>div\<close> and \<open>mod\<close>.\<close>

lemma Add_valid:
  assumes "Valid d"
  shows "Add d s =
     (let T = go_add (to_int d) s in
      if T = 86400 then (EndOfDay, 0)
      else if T mod 86400 = 0 then (StartOfDay, T div 86400)
      else (to_Daytime (T mod 86400), T div 86400))"
proof -
  define T where "T = go_add (to_int d) s"
  have range: "- (2 ^ 63) \<le> T" "T < 2 ^ 63"
    using int_wrap_range [of "to_int d + s"] by (simp_all add: T_def go_add_def)
  show ?thesis
  proof (cases "0 \<le> T")
    case True
    then have "go_quo T 86400 = T div 86400" "go_rem T 86400 = T mod 86400"
      using range by (simp_all add: go_quo_nonneg go_rem_nonneg)
    then show ?thesis
      using assms by (simp add: Add_def Let_def secondsInDay_def T_def [symmetric])
  next
    case False
    then have "go_quo T 86400 = (if T mod 86400 = 0 then T div 86400 else T div 86400 + 1)"
      "go_rem T 86400 = (if T mod 86400 = 0 then 0 else T mod 86400 - 86400)"
      using range by (simp_all add: go_quo_neg go_rem_neg)
    moreover have "T mod 86400 < 86400" by simp
    ultimately show ?thesis
      using assms False by (simp add: Add_def Let_def secondsInDay_def T_def [symmetric])
  qed
qed

text \<open>
  The same on the wrapped total \<open>T\<close>, the Go value of \<open>int(d) + s\<close>, with its floored
  quotient \<open>q\<close> and remainder \<open>r\<close>; \<open>T\<close> is the mathematical sum whenever that sum fits
  Go's \<open>int\<close>.
\<close>

lemma Add_wrapped_total:
  "(Valid d \<longrightarrow>
      (let T = go_add (to_int d) s; q = T div 86400; r = T - 86400 * q in
         (Add d s = (EndOfDay, 0) \<longleftrightarrow> T = 86400) \<and>
         (T \<noteq> 86400 \<longrightarrow>
            Add d s = (to_Daytime r, q) \<and> 0 \<le> r \<and> r \<le> 86399 \<and>
            to_int (fst (Add d s)) = r \<and>
            (r = 0 \<longrightarrow> Add d s = (StartOfDay, q))) \<and>
         (- (2 ^ 63) \<le> s \<and> s < 2 ^ 63 \<longrightarrow> (T = 86400 \<longleftrightarrow> to_int d + s = 86400)) \<and>
         (- (2 ^ 63) \<le> to_int d + s \<and> to_int d + s < 2 ^ 63 \<longrightarrow> T = to_int d + s)))
   \<and> (\<not> Valid d \<longrightarrow> Add d s = (d, 0))"
proof (intro conjI impI)
  assume v: "Valid d"
  define T where "T = go_add (to_int d) s"
  define q where "q = T div 86400"
  define r where "r = T - 86400 * q"
  have r_mod: "r = T mod 86400"
    by (simp add: r_def q_def minus_mult_div_eq_mod)
  then have r_range: "0 \<le> r" "r \<le> 86399" by simp_all
  have r_conv: "to_int (to_Daytime r) = r"
    using r_range by (intro to_int_to_Daytime) simp_all
  have A: "Add d s = (if T = 86400 then (EndOfDay, 0)
                      else if r = 0 then (StartOfDay, q) else (to_Daytime r, q))"
    using Add_valid [OF v, of s] by (simp add: Let_def T_def q_def r_mod)
  have ne: "to_Daytime r \<noteq> EndOfDay"
  proof
    assume "to_Daytime r = EndOfDay"
    then have "to_int (to_Daytime r) = 86400" by (simp add: to_int_EndOfDay)
    then show False using r_conv r_range by simp
  qed
  have zero: "to_Daytime 0 = StartOfDay"
    by (simp add: to_Daytime_def StartOfDay_def)
  have se: "StartOfDay \<noteq> EndOfDay"
    by (simp add: StartOfDay_def EndOfDay_def)
  have wrap: "- (2 ^ 63) \<le> to_int d + s \<and> to_int d + s < 2 ^ 63 \<longrightarrow> T = to_int d + s"
    by (simp add: T_def go_add_def int_wrap_id)
  have exact: "- (2 ^ 63) \<le> s \<and> s < 2 ^ 63 \<longrightarrow> (T = 86400 \<longleftrightarrow> to_int d + s = 86400)"
  proof
    assume "- (2 ^ 63) \<le> s \<and> s < 2 ^ 63"
    then have "- (2 ^ 63) \<le> to_int d + s" "to_int d + s < 2 ^ 64"
      using to_int_nonneg [of d] v by (simp_all add: Valid_iff)
    then show "T = 86400 \<longleftrightarrow> to_int d + s = 86400"
      unfolding T_def go_add_def by (intro int_wrap_eq_iff) simp_all
  qed
  show "let T = go_add (to_int d) s; q = T div 86400; r = T - 86400 * q in
         (Add d s = (EndOfDay, 0) \<longleftrightarrow> T = 86400) \<and>
         (T \<noteq> 86400 \<longrightarrow>
            Add d s = (to_Daytime r, q) \<and> 0 \<le> r \<and> r \<le> 86399 \<and>
            to_int (fst (Add d s)) = r \<and>
            (r = 0 \<longrightarrow> Add d s = (StartOfDay, q))) \<and>
         (- (2 ^ 63) \<le> s \<and> s < 2 ^ 63 \<longrightarrow> (T = 86400 \<longleftrightarrow> to_int d + s = 86400)) \<and>
         (- (2 ^ 63) \<le> to_int d + s \<and> to_int d + s < 2 ^ 63 \<longrightarrow> T = to_int d + s)"
    unfolding Let_def T_def [symmetric] q_def [symmetric] r_def [symmetric]
    using A ne zero se wrap exact r_range r_conv by (auto simp: to_int_StartOfDay)
next
  assume "\<not> Valid d"
  then show "Add d s = (d, 0)" by (simp add: Add_def)
qed

text \<open>
  C1, as stated, gives the floored quotient and remainder of \<open>int(d) + s\<close> for every
  integer \<open>s\<close>. For \<open>d\<close> at 00:00:01 and \<open>s\<close> the largest \<open>int\<close>, the sum is \<open>2^63\<close>, whose
  floored quotient by 86400 is 106751991167300 with remainder 55808; the sum wraps
  around in \<open>Add\<close>, which returns 30592 seconds and -106751991167301 days.
\<close>

theorem Add_floored_division_counterexample:
  "Valid 1 \<and> Add 1 (2 ^ 63 - 1) = (30592, - 106751991167301) \<and>
   (to_int 1 + (2 ^ 63 - 1)) div 86400 = 106751991167300 \<and>
   (to_int 1 + (2 ^ 63 - 1)) - 86400 * ((to_int 1 + (2 ^ 63 - 1)) div 86400) = 55808"
  by (simp add: Add_def Valid_def EndOfDay_def StartOfDay_def go_add_def go_quo_def
      go_rem_def int_wrap_def to_int_def to_Daytime_def secondsInDay_def Let_def)

text \<open>
  C1, amended. Let \<open>d\<close> be valid and \<open>s\<close> a value of Go's 64-bit \<open>int\<close>. \<open>Add\<close> returns
  \<open>(EndOfDay, 0)\<close> exactly when \<open>int(d) + s = 86400\<close>. If moreover the sum does not
  overflow (\<open>int(d) + s < 2^63\<close>) and is not 86400, \<open>Add\<close> returns \<open>(r, q)\<close> with \<open>q\<close> the
  floored quotient of the sum by 86400 and \<open>r\<close> the sum minus \<open>86400 * q\<close>, which lies in
  \<open>[0, 86399]\<close>, a remainder 0 being \<open>StartOfDay\<close> with \<open>q\<close> days. An invalid \<open>d\<close> comes
  back unchanged with 0 days.
\<close>

theorem Add_floored_division:
  "(Valid d \<and> - (2 ^ 63) \<le> s \<and> s < 2 ^ 63 \<longrightarrow>
      (Add d s = (EndOfDay, 0) \<longleftrightarrow> to_int d + s = 86400) \<and>
      (to_int d + s < 2 ^ 63 \<and> to_int d + s \<noteq> 86400 \<longrightarrow>
         (let T = to_int d + s; q = T div 86400; r = T - 86400 * q in
            Add d s = (to_Daytime r, q) \<and> 0 \<le> r \<and> r \<le> 86399 \<and>
            to_int (fst (Add d s)) = r \<and>
            (r = 0 \<longrightarrow> Add d s = (StartOfDay, q)))))
   \<and> (\<not> Valid d \<longrightarrow> Add d s = (d, 0))"
proof (intro conjI impI)
  assume h: "Valid d \<and> - (2 ^ 63) \<le> s \<and> s < 2 ^ 63"
  then have v: "Valid d" by simp
  have W: "let T = go_add (to_int d) s; q = T div 86400; r = T - 86400 * q in
         (Add d s = (EndOfDay, 0) \<longleftrightarrow> T = 86400) \<and>
         (T \<noteq> 86400 \<longrightarrow>
            Add d s = (to_Daytime r, q) \<and> 0 \<le> r \<and> r \<le> 86399 \<and>
            to_int (fst (Add d s)) = r \<and>
            (r = 0 \<longrightarrow> Add d s = (StartOfDay, q))) \<and>
         (- (2 ^ 63) \<le> s \<and> s < 2 ^ 63 \<longrightarrow> (T = 86400 \<longleftrightarrow> to_int d + s = 86400)) \<and>
         (- (2 ^ 63) \<le> to_int d + s \<and> to_int d + s < 2 ^ 63 \<longrightarrow> T = to_int d + s)"
    using Add_wrapped_total [of d s] v by simp
  show "Add d s = (EndOfDay, 0) \<longleftrightarrow> to_int d + s = 86400"
    using W h unfolding Let_def by blast
  assume b: "to_int d + s < 2 ^ 63 \<and> to_int d + s \<noteq> 86400"
  have lo: "- (2 ^ 63) \<le> to_int d + s"
    using h to_int_nonneg [of d] by linarith
  have T: "go_add (to_int d) s = to_int d + s"
    using W lo b unfolding Let_def by blast
  show "let T = to_int d + s; q = T div 86400; r = T - 86400 * q in
            Add d s = (to_Daytime r, q) \<and> 0 \<le> r \<and> r \<le> 86399 \<and>
            to_int (fst (Add d s)) = r \<and>
            (r = 0 \<longrightarrow> Add d s = (StartOfDay, q))"
    using W b unfolding Let_def T by blast
next
  assume "\<not> Valid d"
  then show "Add d s = (d, 0)" by (simp add: Add_def)
qed

theorem Add_floored_division_witness:
  "Valid 82800 \<and> - (2 ^ 63) \<le> (7200 :: int) \<and> (7200 :: int) < 2 ^ 63 \<and>
   to_int 82800 + 7200 < 2 ^ 63 \<and> to_int 82800 + 7200 \<noteq> 86400 \<and>
   Add 82800 7200 = (3600, 1) \<and>
   Add 0 86400 = (EndOfDay, 0) \<and>
   \<not> Valid 90000 \<and> Add 90000 5 = (90000, 0)"
  using Add_floored_division [of 82800 7200] Add_floored_division [of 0 86400]
    Add_floored_division [of 90000 5]
  by (simp add: Valid_def EndOfDay_def to_int_def to_Daytime_def Let_def)

subsection \<open>Ordering and intervals\<close>

lemma StartOfDay_neq_EndOfDay: "StartOfDay \<noteq> EndOfDay"
  by (simp add: StartOfDay_def EndOfDay_def)

lemma Valid_StartOfDay: "Valid StartOfDay"
  by (simp add: Valid_def StartOfDay_def)

lemma Valid_EndOfDay: "Valid EndOfDay"
  by (simp add: Valid_def)

lemma less_iff_to_int: "a < b \<longleftrightarrow> to_int a < to_int b"
  by (simp add: to_int_def word_less_def)

lemma EndOfDay_iff: "d = EndOfDay \<longleftrightarrow> to_int d = 86400"
  using to_int_inject [of d EndOfDay] by (simp add: to_int_EndOfDay)

lemma StartOfDay_iff: "d = StartOfDay \<longleftrightarrow> to_int d = 0"
  using to_int_inject [of d StartOfDay] by (simp add: to_int_StartOfDay)

lemma Before_valid: "Valid a \<Longrightarrow> Valid b \<Longrightarrow> Before a b \<longleftrightarrow> to_int a < to_int b"
  by (auto simp: Before_def Valid_iff EndOfDay_iff less_iff_to_int)

text \<open>
  C5, as stated, claims that \<open>Before\<close> agrees with the raw comparison on all
  representable values. It does not: \<open>EndOfDay\<close> is never before anything, also not
  before the invalid value 86401 that is numerically larger.
\<close>

theorem Before_raw_order_counterexample:
  "\<not> (Before EndOfDay 86401 \<longleftrightarrow> to_int EndOfDay < to_int 86401)"
  by (simp add: Before_def to_int_def EndOfDay_def)

text \<open>
  C5, amended. On valid values \<open>Before\<close> is the raw integer comparison. On representable
  values in general the two agree exactly when it is not the case that one argument is
  \<open>EndOfDay\<close> and the other is invalid.
\<close>

theorem Before_raw_order:
  "(Valid a \<and> Valid b \<longrightarrow> (Before a b \<longleftrightarrow> to_int a < to_int b)) \<and>
   ((Before a b \<longleftrightarrow> to_int a < to_int b) \<longleftrightarrow>
      \<not> (a = EndOfDay \<and> \<not> Valid b) \<and> \<not> (b = EndOfDay \<and> \<not> Valid a))"
  by (auto simp: Before_def Valid_iff EndOfDay_iff less_iff_to_int)

theorem Before_raw_order_witness:
  "Valid 3600 \<and> Valid 82800 \<and> (Before 3600 82800 \<longleftrightarrow> to_int 3600 < to_int 82800) \<and>
   Before 3600 82800 \<and> \<not> Before 82800 3600"
  using Before_raw_order [of 3600 82800] Before_raw_order [of 82800 3600]
  by (simp add: Valid_def EndOfDay_def to_int_def)

text \<open>
  C4. For valid \<open>d\<close>, \<open>start\<close>, \<open>end\<close> with \<open>start\<close> ordered after \<open>end\<close>, \<open>Between\<close> holds
  exactly when \<open>d\<close> is not before \<open>start\<close> or not after \<open>end\<close>, which is
  \<open>start \<le> d \<or> d \<le> end\<close> on the raw values, both endpoints included. Hence the
  interval from \<open>EndOfDay\<close> to \<open>StartOfDay\<close> holds these two values and no other valid one.
\<close>

theorem Between_wraparound:
  "(Valid d \<and> Valid start \<and> Valid end' \<and> After start end' \<longrightarrow>
      (Between d start end' \<longleftrightarrow> \<not> Before d start \<or> \<not> After d end') \<and>
      (Between d start end' \<longleftrightarrow> to_int start \<le> to_int d \<or> to_int d \<le> to_int end')) \<and>
   (Valid d \<longrightarrow> (Between d EndOfDay StartOfDay \<longleftrightarrow> d = StartOfDay \<or> d = EndOfDay))"
proof (intro conjI impI)
  assume h: "Valid d \<and> Valid start \<and> Valid end' \<and> After start end'"
  then have lt: "to_int end' < to_int start"
    using Before_valid [of end' start] by (simp add: After_def)
  then have ne: "start \<noteq> end'" and nb: "\<not> Before start end'"
    using h Before_valid [of start end'] by auto
  show "Between d start end' \<longleftrightarrow> \<not> Before d start \<or> \<not> After d end'"
    using h ne nb by (simp add: Between_def)
  then show "Between d start end' \<longleftrightarrow> to_int start \<le> to_int d \<or> to_int d \<le> to_int end'"
    using h Before_valid [of d start] Before_valid [of end' d] by (auto simp: After_def)
next
  assume v: "Valid d"
  have "Between d EndOfDay StartOfDay \<longleftrightarrow> \<not> Before d EndOfDay \<or> \<not> After d StartOfDay"
    using v StartOfDay_neq_EndOfDay
    by (auto simp: Between_def Valid_StartOfDay Valid_EndOfDay Before_def)
  also have "\<dots> \<longleftrightarrow> d = StartOfDay \<or> d = EndOfDay"
    using v Before_valid [of d EndOfDay] Before_valid [of StartOfDay d] to_int_nonneg [of d]
    by (auto simp: After_def Valid_StartOfDay Valid_EndOfDay
        to_int_EndOfDay to_int_StartOfDay EndOfDay_iff StartOfDay_iff Valid_iff)
  finally show "Between d EndOfDay StartOfDay \<longleftrightarrow> d = StartOfDay \<or> d = EndOfDay" .
qed

theorem Between_wraparound_witness:
  "Valid 0 \<and> Valid 82800 \<and> Valid 3600 \<and> After 82800 3600 \<and> Between 0 82800 3600 \<and>
   \<not> Between 43200 82800 3600 \<and> \<not> Between 43200 EndOfDay StartOfDay"
  using Between_wraparound [of 0 82800 3600] Between_wraparound [of 43200 82800 3600]
  by (simp add: Valid_def EndOfDay_def StartOfDay_def After_def Before_def to_int_def)

subsection \<open>Diff\<close>

lemma floored_pair:
  assumes "- (2 ^ 63) \<le> T" "T < 2 ^ 63"
  shows "(if go_rem T 86400 < 0 then (go_rem T 86400 + 86400, go_quo T 86400 - 1)
          else (go_rem T 86400, go_quo T 86400)) = (T mod 86400, T div 86400)"
proof (cases "0 \<le> T")
  case True
  then show ?thesis using assms by (simp add: go_quo_nonneg go_rem_nonneg)
next
  case False
  moreover have "T mod 86400 < 86400" by simp
  ultimately show ?thesis using assms by (simp add: go_quo_neg go_rem_neg)
qed

lemma Diff_valid:
  assumes "Valid d" "Valid other"
  shows "Diff d other = ((to_int d - to_int other) mod 86400, (to_int d - to_int other) div 86400)"
proof -
  define T where "T = to_int d - to_int other"
  have b: "0 \<le> to_int d" "to_int d \<le> 86400" "0 \<le> to_int other" "to_int other \<le> 86400"
    using assms by (simp_all add: Valid_iff to_int_nonneg)
  then have range: "- (2 ^ 63) \<le> T" "T < 2 ^ 63" by (simp_all add: T_def)
  then have w: "go_sub (to_int d) (to_int other) = T"
    by (simp add: go_sub_def T_def int_wrap_id)
  have e1: "(if d = EndOfDay \<and> d \<noteq> other then secondsInDay else to_int d) = to_int d"
    by (simp add: secondsInDay_def to_int_EndOfDay)
  have e2: "(if other = EndOfDay \<and> d \<noteq> other then secondsInDay else to_int other) = to_int other"
    by (simp add: secondsInDay_def to_int_EndOfDay)
  have "Diff d other =
      (if go_rem T 86400 < 0 then (go_rem T 86400 + 86400, go_quo T 86400 - 1)
       else (go_rem T 86400, go_quo T 86400))"
    using assms unfolding Diff_def Let_def e1 e2 w by (simp add: secondsInDay_def)
  then show ?thesis using floored_pair [OF range] by (simp add: T_def)
qed

text \<open>
  C6. \<open>Diff\<close> on valid operands is the floored quotient and remainder of the difference
  in which \<open>EndOfDay\<close> counts as 86400 on either side; equal operands give \<open>(0, 0)\<close>;
  \<open>EndOfDay - StartOfDay\<close> is \<open>(0, 1)\<close> and \<open>StartOfDay - EndOfDay\<close> is \<open>(0, -1)\<close>; the
  seconds lie in \<open>[0, 86399]\<close>; an invalid operand on either side gives \<open>(0, 0)\<close>.
\<close>

theorem Diff_EndOfDay_as_86400:
  "(Valid d \<and> Valid other \<longrightarrow>
      (let T = (if d = EndOfDay then 86400 else to_int d)
             - (if other = EndOfDay then 86400 else to_int other)
       in Diff d other = (T mod 86400, T div 86400)) \<and>
      0 \<le> fst (Diff d other) \<and> fst (Diff d other) \<le> 86399) \<and>
   Diff d d = (0, 0) \<and>
   Diff EndOfDay StartOfDay = (0, 1) \<and>
   Diff StartOfDay EndOfDay = (0, - 1) \<and>
   (\<not> Valid d \<or> \<not> Valid other \<longrightarrow> Diff d other = (0, 0))"
proof (intro conjI impI)
  assume h: "Valid d \<and> Valid other"
  have c: "(if d = EndOfDay then 86400 else to_int d) = to_int d"
    "(if other = EndOfDay then 86400 else to_int other) = to_int other"
    by (simp_all add: to_int_EndOfDay)
  show "let T = (if d = EndOfDay then 86400 else to_int d)
              - (if other = EndOfDay then 86400 else to_int other)
        in Diff d other = (T mod 86400, T div 86400)"
    unfolding Let_def c using h by (simp add: Diff_valid)
  show "0 \<le> fst (Diff d other)" using h by (simp add: Diff_valid)
  show "fst (Diff d other) \<le> 86399" using h by (simp add: Diff_valid)
next
  show "Diff d d = (0, 0)"
    by (cases "Valid d") (simp_all add: Diff_valid, simp add: Diff_def)
  show "Diff EndOfDay StartOfDay = (0, 1)"
    by (simp add: Diff_valid Valid_EndOfDay Valid_StartOfDay to_int_EndOfDay to_int_StartOfDay)
  show "Diff StartOfDay EndOfDay = (0, - 1)"
    by (simp add: Diff_valid Valid_EndOfDay Valid_StartOfDay to_int_EndOfDay to_int_StartOfDay)
next
  assume "\<not> Valid d \<or> \<not> Valid other"
  then show "Diff d other = (0, 0)" by (auto simp: Diff_def)
qed

theorem Diff_EndOfDay_as_86400_witness:
  "Valid 3600 \<and> Valid 43200 \<and> Diff 3600 43200 = (46800, - 1) \<and>
   \<not> Valid 90000 \<and> Diff 90000 43200 = (0, 0)"
  using Diff_EndOfDay_as_86400 [of 3600 43200] Diff_EndOfDay_as_86400 [of 90000 43200]
  by (simp add: Valid_def EndOfDay_def to_int_def Let_def)

subsection \<open>Invalid receivers\<close>

text \<open>
  C7. On an invalid \<open>d\<close> (raw value above 86400) the operations are inert: \<open>Add\<close> and
  \<open>Mul\<close> return \<open>(d, 0)\<close>; \<open>Div\<close> by a nonzero divisor returns \<open>(d, 0)\<close> without error;
  \<open>Mod\<close> by a positive modulus returns \<open>d\<close> without error; \<open>Diff\<close> with \<open>d\<close> on either
  side returns \<open>(0, 0)\<close>; \<open>Between\<close> with \<open>d\<close> in any position is false; \<open>String\<close> is
  \<open>invalid\<close>.
\<close>

theorem invalid_is_inert:
  "\<not> Valid d \<Longrightarrow>
     86400 < to_int d \<and>
     Add d s = (d, 0) \<and> Mul d f = (d, 0) \<and>
     (k \<noteq> 0 \<longrightarrow> Div d k = Inr (d, 0)) \<and>
     (0 < m \<longrightarrow> Mod d m = Inr d) \<and>
     Diff d x = (0, 0) \<and> Diff x d = (0, 0) \<and>
     \<not> Between d x y \<and> \<not> Between x d y \<and> \<not> Between x y d \<and>
     String d = ''invalid''"
  by (simp add: Valid_iff [symmetric] not_le [symmetric]
      Add_def Mul_def Div_def Mod_def Diff_def Between_def String_def)

theorem invalid_is_inert_witness:
  "\<not> Valid 90000 \<and> Add 90000 7 = (90000, 0) \<and> Mul 90000 3 = (90000, 0) \<and>
   Div 90000 2 = Inr (90000, 0) \<and> Mod 90000 60 = Inr 90000 \<and> String 90000 = ''invalid''"
  using invalid_is_inert [of 90000 7 3 2 60]
  by (simp add: Valid_def EndOfDay_def)

subsection \<open>Division\<close>

text \<open>
  C10. Dividing \<open>StartOfDay\<close> by any negative divisor succeeds with \<open>(StartOfDay, 0)\<close>. A
  negative divisor is rejected, through the range check of the quotient and as
  \<open>ErrValueOutOfRange\<close>, only for a strictly positive dividend.
\<close>

theorem Div_negative_divisor:
  "k < 0 \<Longrightarrow>
     Div StartOfDay k = Inr (StartOfDay, 0) \<and>
     (\<forall>d e. Valid d \<and> Div d k = Inl e \<longrightarrow> 0 < to_int d \<and> err e = ErrValueOutOfRange)"
proof (intro conjI allI impI)
  assume k: "k < 0"
  have z: "go_quo 0 k = 0" "go_rem 0 k = 0"
    by (simp_all add: go_quo_def go_rem_def int_wrap_def)
  show s: "Div StartOfDay k = Inr (StartOfDay, 0)"
    using k StartOfDay_neq_EndOfDay
    by (simp add: Div_def Valid_StartOfDay to_int_StartOfDay z secondsInDay_def Let_def)
      (simp add: to_Daytime_def StartOfDay_def)
  fix d e
  assume h: "Valid d \<and> Div d k = Inl e"
  have "d \<noteq> StartOfDay" using h s by auto
  then have "to_int d \<noteq> 0" by (simp add: StartOfDay_iff)
  then show "0 < to_int d" using to_int_nonneg [of d] by simp
  show "err e = ErrValueOutOfRange"
    using h k by (auto simp: Div_def Let_def errorf_def split: if_splits)
qed

theorem Div_negative_divisor_witness:
  "(- 5 :: int) < 0 \<and> Div StartOfDay (- 5) = Inr (StartOfDay, 0) \<and>
   Div 43200 (- 1) = Inl (errorf ''Div'' (AnyInt (- 43200)) ErrValueOutOfRange)"
  using Div_negative_divisor [of "- 5"]
  by (simp add: Div_def Valid_def EndOfDay_def to_int_def go_quo_def go_rem_def int_wrap_def
      secondsInDay_def)

subsection \<open>Add and its inverse\<close>

lemma Add_result:
  assumes "Valid d" "- (2 ^ 63) \<le> to_int d + s" "to_int d + s < 2 ^ 63"
  shows "Valid (fst (Add d s))"
    and "to_int (fst (Add d s)) =
           (if to_int d + s = 86400 then 86400 else (to_int d + s) mod 86400)"
    and "snd (Add d s) = (if to_int d + s = 86400 then 0 else (to_int d + s) div 86400)"
proof -
  define T where "T = to_int d + s"
  have w: "go_add (to_int d) s = T"
    using assms by (simp add: go_add_def int_wrap_id T_def)
  have A: "Add d s = (if T = 86400 then (EndOfDay, 0)
                      else if T mod 86400 = 0 then (StartOfDay, T div 86400)
                      else (to_Daytime (T mod 86400), T div 86400))"
    using Add_valid [OF assms(1), of s] by (simp add: w Let_def)
  have c: "to_int (to_Daytime (T mod 86400)) = T mod 86400"
    by (intro to_int_to_Daytime) simp_all
  show "to_int (fst (Add d s)) = (if to_int d + s = 86400 then 86400 else (to_int d + s) mod 86400)"
    unfolding T_def [symmetric] by (simp add: A c to_int_EndOfDay to_int_StartOfDay)
  then show "Valid (fst (Add d s))"
    unfolding T_def [symmetric] Valid_iff by (simp add: less_imp_le)
  show "snd (Add d s) = (if to_int d + s = 86400 then 0 else (to_int d + s) div 86400)"
    unfolding T_def [symmetric] by (simp add: A)
qed

lemma round_trip_arith_let:
  fixes D s q r :: int
  assumes D: "0 \<le> D" "D \<le> 86400"
    and T: "D + s = 86400 * q + r" "0 \<le> r" "r < 86400"
  shows "(let T = D + s;
              D1 = (if T = 86400 then 86400 else r);
              k1 = (if T = 86400 then 0 else q);
              T2 = D1 - s;
              D2 = (if T2 = 86400 then 86400 else T2 mod 86400);
              k2 = (if T2 = 86400 then 0 else T2 div 86400)
          in D2 = D \<and> k1 + k2 = 0) \<longleftrightarrow>
         (0 < D \<and> D < 86400) \<or> (D = 0 \<and> \<not> (- 86400 \<le> s \<and> s \<le> - 1)) \<or>
         (D = 86400 \<and> - 86400 \<le> s \<and> s \<le> 0)"
proof (cases "D + s = 86400")
  case True
  then have T2: "86400 - s = D" by simp
  have small: "D < 86400 \<Longrightarrow> D mod 86400 = D \<and> D div 86400 = 0"
    using D by simp
  show ?thesis
    unfolding Let_def using True D small by (cases "D = 86400") (auto simp: T2)
next
  case False
  have T2: "r - s = D - 86400 * q" using T by simp
  have m: "(D - 86400 * q) mod 86400 = D mod 86400"
    by (metis mod_mult_self1 mult.commute uminus_add_conv_diff mult_minus_right add.commute)
  have d: "(D - 86400 * q) div 86400 = D div 86400 - q"
  proof -
    have "(D + (- q) * 86400) div 86400 = (- q) + D div 86400"
      by (rule div_mult_self1) simp
    then show ?thesis by (simp add: algebra_simps)
  qed
  consider (zero) "D = 0" | (mid) "0 < D" "D < 86400" | (full) "D = 86400"
    using D by linarith
  then show ?thesis
  proof cases
    case zero
    have "q = - 1 \<longleftrightarrow> - 86400 \<le> s \<and> s \<le> - 1" using T zero by auto
    then show ?thesis
      unfolding Let_def using False zero by (simp add: T2 m d) auto
  next
    case mid
    have "D - 86400 * q \<noteq> 86400"
    proof
      assume "D - 86400 * q = 86400"
      then have "0 < q + 1" "q + 1 < 1" using mid by linarith+
      then show False by linarith
    qed
    then show ?thesis
      unfolding Let_def using False mid by (simp add: T2 m d)
  next
    case full
    have "q = 0 \<longleftrightarrow> - 86400 \<le> s \<and> s \<le> - 1" using T full by auto
    then show ?thesis
      unfolding Let_def using False full by (simp add: T2 m d) auto
  qed
qed

lemma round_trip_arith:
  fixes D s q r D1 k1 D2 k2 :: int
  assumes D: "0 \<le> D" "D \<le> 86400"
    and T: "D + s = 86400 * q + r" "0 \<le> r" "r < 86400"
    and first: "D1 = (if D + s = 86400 then 86400 else r)"
      "k1 = (if D + s = 86400 then 0 else q)"
    and second: "D2 = (if D1 - s = 86400 then 86400 else (D1 - s) mod 86400)"
      "k2 = (if D1 - s = 86400 then 0 else (D1 - s) div 86400)"
  shows "(D2 = D \<and> k1 + k2 = 0) \<longleftrightarrow>
         (0 < D \<and> D < 86400) \<or> (D = 0 \<and> \<not> (- 86400 \<le> s \<and> s \<le> - 1)) \<or>
         (D = 86400 \<and> - 86400 \<le> s \<and> s \<le> 0)"
  using round_trip_arith_let [OF D T] unfolding Let_def first second .

text \<open>
  C2, as stated, claims that \<open>Add(d, s)\<close> followed by \<open>Add(\<cdot>, -s)\<close> returns to \<open>d\<close> with the
  days crossed summing to zero, for every valid \<open>d\<close> and every \<open>s\<close>. From \<open>StartOfDay\<close>,
  one second back is \<open>(23:59:59, -1)\<close> and one second forward from there is
  \<open>(EndOfDay, 0)\<close>: the result is \<open>EndOfDay\<close>, not \<open>StartOfDay\<close>, and the days sum to -1.
  For the largest \<open>int\<close> the first sum wraps around and the round trip from 00:00:01
  ends at 16:59:45.
\<close>

theorem Add_round_trip_counterexample:
  "Add StartOfDay (- 1) = (86399, - 1) \<and> Add 86399 (go_neg (- 1)) = (EndOfDay, 0) \<and>
   EndOfDay \<noteq> StartOfDay \<and> (- 1 :: int) + 0 \<noteq> 0 \<and>
   fst (Add (fst (Add 1 (2 ^ 63 - 1))) (go_neg (2 ^ 63 - 1))) = 61185"
  by (simp add: Add_def Valid_def EndOfDay_def StartOfDay_def go_add_def go_neg_def go_quo_def
      go_rem_def int_wrap_def to_int_def to_Daytime_def secondsInDay_def Let_def)

text \<open>
  C2, amended. Let \<open>d\<close> be valid and \<open>s\<close> at most \<open>2^63 - 86401\<close> in absolute value, so
  that neither addition nor the negation leaves the range of \<open>int\<close>. Then \<open>Add(d, s)\<close>
  followed by \<open>Add(\<cdot>, -s)\<close> returns to \<open>d\<close> with the days crossed summing to zero exactly
  when \<open>d\<close> is neither \<open>StartOfDay\<close> nor \<open>EndOfDay\<close>, or \<open>d\<close> is \<open>StartOfDay\<close> and \<open>s\<close> is
  not in \<open>[-86400, -1]\<close>, or \<open>d\<close> is \<open>EndOfDay\<close> and \<open>s\<close> is in \<open>[-86400, 0]\<close>.
\<close>

theorem Add_round_trip:
  assumes "Valid d" "\<bar>s\<bar> \<le> 2 ^ 63 - 86401"
  shows "(fst (Add (fst (Add d s)) (go_neg s)) = d \<and>
          snd (Add d s) + snd (Add (fst (Add d s)) (go_neg s)) = 0) \<longleftrightarrow>
         (d \<noteq> StartOfDay \<and> d \<noteq> EndOfDay) \<or>
         (d = StartOfDay \<and> \<not> (- 86400 \<le> s \<and> s \<le> - 1)) \<or>
         (d = EndOfDay \<and> - 86400 \<le> s \<and> s \<le> 0)"
proof -
  define D where "D = to_int d"
  define d1 where "d1 = fst (Add d s)"
  define D1 where "D1 = to_int d1"
  define q where "q = (D + s) div 86400"
  define r where "r = (D + s) mod 86400"
  have D: "0 \<le> D" "D \<le> 86400"
    using assms(1) by (simp_all add: D_def Valid_iff to_int_nonneg)
  have s: "- (2 ^ 63 - 86401) \<le> s" "s \<le> 2 ^ 63 - 86401"
    using assms(2) by (simp_all add: abs_le_iff)
  have neg: "go_neg s = - s"
    using s by (simp add: go_neg_def int_wrap_id)
  have first: "Valid d1"
    "D1 = (if D + s = 86400 then 86400 else r)"
    "snd (Add d s) = (if D + s = 86400 then 0 else q)"
    using Add_result [of d s] assms(1) D s
    by (simp_all add: d1_def D1_def D_def q_def r_def)
  have D1: "0 \<le> D1" "D1 \<le> 86400"
    using first(1) by (simp_all add: D1_def Valid_iff to_int_nonneg)
  have second: "to_int (fst (Add d1 (- s))) =
                  (if D1 - s = 86400 then 86400 else (D1 - s) mod 86400)"
    "snd (Add d1 (- s)) = (if D1 - s = 86400 then 0 else (D1 - s) div 86400)"
    using Add_result [of d1 "- s"] first(1) D1 s by (simp_all add: D1_def)
  have eq: "fst (Add d1 (- s)) = d \<longleftrightarrow> to_int (fst (Add d1 (- s))) = D"
    by (simp add: D_def to_int_inject)
  have cases: "d = StartOfDay \<longleftrightarrow> D = 0" "d = EndOfDay \<longleftrightarrow> D = 86400"
    by (simp_all add: D_def StartOfDay_iff EndOfDay_iff)
  have mid: "(D \<noteq> 0 \<and> D \<noteq> 86400) \<longleftrightarrow> (0 < D \<and> D < 86400)"
    using D by auto
  have decomp: "D + s = 86400 * q + r" "0 \<le> r" "r < 86400"
    by (simp_all add: q_def r_def)
  have "(to_int (fst (Add d1 (- s))) = D \<and> snd (Add d s) + snd (Add d1 (- s)) = 0) \<longleftrightarrow>
        (0 < D \<and> D < 86400) \<or> (D = 0 \<and> \<not> (- 86400 \<le> s \<and> s \<le> - 1)) \<or>
        (D = 86400 \<and> - 86400 \<le> s \<and> s \<le> 0)"
    by (rule round_trip_arith [OF D decomp first(2) first(3) second])
  then show ?thesis
    unfolding d1_def [symmetric] neg eq cases mid .
qed

theorem Add_round_trip_witness:
  "Valid 43200 \<and> \<bar>129600 :: int\<bar> \<le> 2 ^ 63 - 86401 \<and>
   fst (Add (fst (Add 43200 129600)) (go_neg 129600)) = 43200 \<and>
   snd (Add 43200 129600) + snd (Add (fst (Add 43200 129600)) (go_neg 129600)) = 0"
  using Add_round_trip [of 43200 129600]
  by (simp add: Valid_def EndOfDay_def StartOfDay_def)

subsection \<open>Rendering and scanning two-digit fields\<close>

lemma digit_char_values:
  "digit_char 0 = CHR ''0''" "digit_char 1 = CHR ''1''" "digit_char 2 = CHR ''2''"
  "digit_char 3 = CHR ''3''" "digit_char 4 = CHR ''4''" "digit_char 5 = CHR ''5''"
  "digit_char 6 = CHR ''6''" "digit_char 7 = CHR ''7''" "digit_char 8 = CHR ''8''"
  "digit_char 9 = CHR ''9''"
  by (simp_all add: digit_char_def char_of_def bit_Suc_0_iff)

lemma digit_char_cases:
  assumes "n < 10"
  shows "digit_char n \<in> set ''0123456789''"
proof -
  have "list_all (\<lambda>k. is_digit (digit_char k)) [0..<10]"
    by code_simp
  moreover have "n \<in> set [0..<10]"
    using assms by simp
  ultimately have "is_digit (digit_char n)"
    unfolding list_all_iff by blast
  then show ?thesis by (simp only: is_digit_def)
qed

lemma digit_val_digit_char: "n < 10 \<Longrightarrow> digit_val (digit_char n) = n"
  by (simp add: digit_val_def digit_char_def of_char_of)

lemma digit_facts:
  assumes "c \<in> set ''0123456789''"
  shows "is_digit c" "c \<noteq> CHR '':''" "c \<noteq> CHR 0x0A" "c \<noteq> CHR ''+''" "c \<noteq> CHR ''-''"
    "space_width (c # xs) = 0"
proof -
  have c: "c = CHR ''0'' \<or> c = CHR ''1'' \<or> c = CHR ''2'' \<or> c = CHR ''3'' \<or> c = CHR ''4'' \<or>
           c = CHR ''5'' \<or> c = CHR ''6'' \<or> c = CHR ''7'' \<or> c = CHR ''8'' \<or> c = CHR ''9''"
    using assms by simp
  show "is_digit c" using assms by (simp add: is_digit_def)
  show "c \<noteq> CHR '':''" using c by (elim disjE) simp_all
  show "c \<noteq> CHR 0x0A" using c by (elim disjE) simp_all
  show "c \<noteq> CHR ''+''" using c by (elim disjE) simp_all
  show "c \<noteq> CHR ''-''" using c by (elim disjE) simp_all
  show "space_width (c # xs) = 0"
    using c by (elim disjE) (simp_all add: space_width_def space_runes_def)
qed

lemma SkipSpace_digit: "c \<in> set ''0123456789'' \<Longrightarrow> SkipSpace (c # xs) = Some (c # xs)"
  by (subst SkipSpace.simps) (simp add: digit_facts)

lemma decimal_two_digits:
  assumes "n < 100"
  shows "(let ds = decimal n in if length ds < 2 then CHR ''0'' # ds else ds)
         = [digit_char (n div 10), digit_char (n mod 10)]"
proof (cases "n < 10")
  case True
  then have "decimal n = [digit_char n]" by (subst decimal.simps) simp
  then show ?thesis using True by (simp add: digit_char_values)
next
  case False
  then have "n div 10 < 10" using assms by simp
  then have "decimal (n div 10) = [digit_char (n div 10)]" by (subst decimal.simps) simp
  then have "decimal n = [digit_char (n div 10), digit_char (n mod 10)]"
    using False by (subst decimal.simps) simp
  then show ?thesis by simp
qed

lemma fmt_02d_two_digits:
  assumes "0 \<le> n" "n < 100"
  shows "fmt_02d n = [digit_char (nat n div 10), digit_char (nat n mod 10)]"
  using assms decimal_two_digits [of "nat n"] by (simp add: fmt_02d_def)

lemma ParseInt_two_digits:
  assumes "a < 10" "b < 10"
  shows "ParseInt [digit_char a, digit_char b] = Some (int (a * 10 + b))"
proof -
  have a: "digit_char a \<in> set ''0123456789''" and b: "digit_char b \<in> set ''0123456789''"
    using assms by (simp_all only: digit_char_cases)
  have "int (a * 10 + b) < 2 ^ 63" using assms by simp
  then show ?thesis
    using digit_facts(1,4,5) [OF a] digit_facts(1) [OF b] assms
    by (simp add: ParseInt_def dec_val_def digit_val_digit_char Let_def)
qed

lemma scanInt_two_digits:
  assumes "a < 10" "b < 10" "rest = [] \<or> hd rest = CHR '':''"
  shows "scanInt (digit_char a # digit_char b # rest) = Some (int (a * 10 + b), rest)"
proof -
  have a: "digit_char a \<in> set ''0123456789''" and b: "digit_char b \<in> set ''0123456789''"
    using assms by (simp_all only: digit_char_cases)
  have stop: "takeWhile is_digit rest = [] \<and> dropWhile is_digit rest = rest"
  proof (cases rest)
    case Nil
    then show ?thesis by simp
  next
    case (Cons x xs)
    then have "x = CHR '':''" using assms(3) by simp
    then show ?thesis using Cons by (simp add: is_digit_def)
  qed
  have tw: "takeWhile is_digit (digit_char a # digit_char b # rest)
            = [digit_char a, digit_char b]"
    and dw: "dropWhile is_digit (digit_char a # digit_char b # rest) = rest"
    using digit_facts(1) [OF a] digit_facts(1) [OF b] stop by simp_all
  have sign: "\<not> (digit_char a = CHR ''+'' \<or> digit_char a = CHR ''-'')"
    using digit_facts(4,5) [OF a] by simp
  show ?thesis
    unfolding scanInt_def SkipSpace_digit [OF a]
    by (simp only: option.case list.case Let_def sign if_False tw dw append_Nil
        ParseInt_two_digits [OF assms(1,2)]) simp
qed

lemma Sscanf_clock:
  assumes "h1 < 10" "h0 < 10" "m1 < 10" "m0 < 10" "s1 < 10" "s0 < 10"
  shows "Sscanf_d_d_d ([digit_char h1, digit_char h0] @ '':'' @ [digit_char m1, digit_char m0]
            @ '':'' @ [digit_char s1, digit_char s0])
         = Some (int (h1 * 10 + h0), int (m1 * 10 + m0), int (s1 * 10 + s0))"
  using assms by (simp add: Sscanf_d_d_d_def scanInt_two_digits literal_def)

lemma Atoi_clock:
  assumes "h1 < 10"
  shows "Atoi (digit_char h1 # c # CHR '':'' # rest) = None"
proof -
  have a: "digit_char h1 \<in> set ''0123456789''"
    using assms by (simp only: digit_char_cases)
  show ?thesis
    using digit_facts(4,5) [OF a]
    by (simp add: Atoi_def ParseInt_def is_digit_def)
qed

lemma Clock_in_day:
  assumes "Valid d" "d \<noteq> EndOfDay"
  shows "Clock d = (to_int d div 3600, to_int d mod 3600 div 60, to_int d mod 60)"
proof -
  define D where "D = to_int d"
  have D: "0 \<le> D" "D < 2 ^ 63"
    using to_int_nonneg [of d] to_int_upper [of d] by (simp_all add: D_def)
  have r: "go_rem D 3600 = D mod 3600" "go_rem D 60 = D mod 60"
    using D by (simp_all add: go_rem_nonneg)
  have "D mod 3600 < 3600" by simp
  then have "D mod 3600 < 2 ^ 63" by simp
  then have q: "go_quo D 3600 = D div 3600" "go_quo (D mod 3600) 60 = D mod 3600 div 60"
    using D by (simp_all add: go_quo_nonneg)
  show ?thesis
    using assms(2) by (simp add: Clock_def Let_def D_def [symmetric] r q)
qed

lemma Parse_clock:
  fixes h m s :: nat
  assumes "h < 24" "m < 60" "s < 60"
  shows "Parse ([digit_char (h div 10), digit_char (h mod 10)] @ '':'' @
                [digit_char (m div 10), digit_char (m mod 10)] @ '':'' @
                [digit_char (s div 10), digit_char (s mod 10)])
         = Inr (to_Daytime (int (h * 3600 + m * 60 + s)))"
proof -
  define clock_text where "clock_text = [digit_char (h div 10), digit_char (h mod 10)] @ '':'' @
                [digit_char (m div 10), digit_char (m mod 10)] @ '':'' @
                [digit_char (s div 10), digit_char (s mod 10)]"
  have lt: "h div 10 < 10" "m div 10 < 10" "s div 10 < 10" using assms by simp_all
  have a: "Atoi clock_text = None"
    using Atoi_clock [OF lt(1)] by (simp add: clock_text_def)
  have sc: "Sscanf_d_d_d clock_text = Some (int h, int m, int s)"
    using Sscanf_clock [OF lt(1) _ lt(2) _ lt(3), of "h mod 10" "m mod 10" "s mod 10"]
    by (simp add: clock_text_def mult.commute)
  have len: "length clock_text = 8" by (simp add: clock_text_def)
  have ne: "clock_text \<noteq> []" by (simp add: clock_text_def)
  have pts: "parseTimeString clock_text = Inr (int (h * 3600 + m * 60 + s))"
    using assms by (simp add: parseTimeString_def len sc hoursInDay_def secondsInDay_def)
  show ?thesis
    unfolding clock_text_def [symmetric]
    by (simp add: Parse_def ne parseSeconds_def a pts)
qed

lemma String_in_day:
  assumes "Valid d" "d \<noteq> EndOfDay"
  shows "\<exists>h m s. h < 24 \<and> m < 60 \<and> s < 60 \<and> to_int d = int (h * 3600 + m * 60 + s) \<and>
           String d = [digit_char (h div 10), digit_char (h mod 10)] @ '':'' @
                      [digit_char (m div 10), digit_char (m mod 10)] @ '':'' @
                      [digit_char (s div 10), digit_char (s mod 10)]"
proof -
  define D where "D = nat (to_int d)"
  have Di: "to_int d = int D" by (simp add: D_def to_int_nonneg)
  have "to_int d \<noteq> 86400" using assms(2) by (simp add: EndOfDay_iff)
  then have D: "D < 86400" using assms(1) by (simp add: Valid_iff Di)
  define h where "h = D div 3600"
  define m where "m = D mod 3600 div 60"
  define s where "s = D mod 60"
  have hms: "h < 24" "m < 60" "s < 60"
    using D by (simp_all add: h_def m_def s_def less_mult_imp_div_less)
  have "D mod 3600 mod 60 = D mod 60" by (simp add: mod_mod_cancel)
  then have sum: "D = h * 3600 + m * 60 + s"
    unfolding h_def m_def s_def
    by (metis div_mult_mod_eq add.assoc)
  have ck: "Clock d = (int h, int m, int s)"
    by (simp add: Clock_in_day [OF assms] Di h_def m_def s_def zdiv_int zmod_int)
  have f: "fmt_02d (int h) = [digit_char (h div 10), digit_char (h mod 10)]"
    "fmt_02d (int m) = [digit_char (m div 10), digit_char (m mod 10)]"
    "fmt_02d (int s) = [digit_char (s div 10), digit_char (s mod 10)]"
    using hms by (simp_all add: fmt_02d_two_digits)
  have "String d = [digit_char (h div 10), digit_char (h mod 10)] @ '':'' @
                      [digit_char (m div 10), digit_char (m mod 10)] @ '':'' @
                      [digit_char (s div 10), digit_char (s mod 10)]"
    using assms by (simp add: String_def ck fmt_clock_def f)
  then show ?thesis using hms sum Di by blast
qed

subsection \<open>Canonical text\<close>

text \<open>
  C9. For every valid \<open>d\<close>, the text \<open>String d\<close> is read back by \<open>UnmarshalText\<close> as \<open>d\<close>,
  without error and whatever the receiver held before.
\<close>

theorem String_UnmarshalText_round_trip:
  "Valid d \<Longrightarrow> UnmarshalText r (String d) = (d, None)"
proof (cases "d = EndOfDay")
  case True
  have "Parse ''24:00:00'' = Inr EndOfDay" by code_simp
  then show ?thesis using True by (simp add: String_def Valid_EndOfDay UnmarshalText_def)
next
  case False
  assume v: "Valid d"
  from String_in_day [OF v False] obtain h m s where
    hms: "h < 24" "m < 60" "s < 60" and sum: "to_int d = int (h * 3600 + m * 60 + s)"
    and str: "String d = [digit_char (h div 10), digit_char (h mod 10)] @ '':'' @
                      [digit_char (m div 10), digit_char (m mod 10)] @ '':'' @
                      [digit_char (s div 10), digit_char (s mod 10)]"
    by blast
  have "Parse (String d) = Inr (to_Daytime (to_int d))"
    unfolding str sum by (rule Parse_clock [OF hms])
  then show ?thesis by (simp add: UnmarshalText_def to_Daytime_to_int)
qed

theorem String_UnmarshalText_round_trip_witness:
  "Valid 45045 \<and> String 45045 = ''12:30:45'' \<and> UnmarshalText 7 ''12:30:45'' = (45045, None)"
proof -
  have v: "Valid 45045" by (simp add: Valid_def EndOfDay_def)
  have s: "String 45045 = ''12:30:45''" by code_simp
  show ?thesis using v s String_UnmarshalText_round_trip [OF v, of 7] by simp
qed

subsection \<open>Parse and its errors\<close>

text \<open>
  C3, as stated, claims that \<open>Parse\<close> fails on \<open>25:00:00\<close> with root cause
  \<open>ErrInvalidTimeComponent\<close> and on \<open>24:00:01\<close> with root cause \<open>ErrEndOfDayExceeded\<close>.
  Both fail with root cause \<open>ErrInvalidFormat\<close>, which is the only cause that
  \<open>errors.Is\<close> matches on them.
\<close>

theorem Parse_root_cause_counterexample:
  "Parse ''25:00:00'' = Inl (errorf ''Parse'' (AnyString ''25:00:00'') ErrInvalidFormat) \<and>
   \<not> errors_Is (errorf ''Parse'' (AnyString ''25:00:00'') ErrInvalidFormat) ErrInvalidTimeComponent \<and>
   Parse ''24:00:01'' = Inl (errorf ''Parse'' (AnyString ''24:00:01'') ErrInvalidFormat) \<and>
   \<not> errors_Is (errorf ''Parse'' (AnyString ''24:00:01'') ErrInvalidFormat) ErrEndOfDayExceeded"
proof -
  have "Parse ''25:00:00'' = Inl (errorf ''Parse'' (AnyString ''25:00:00'') ErrInvalidFormat)"
    by code_simp
  moreover have
    "Parse ''24:00:01'' = Inl (errorf ''Parse'' (AnyString ''24:00:01'') ErrInvalidFormat)"
    by code_simp
  ultimately show ?thesis by (simp add: errors_Is_def Unwrap_def errorf_def)
qed

text \<open>
  C3, amended. Let the string not parse as a seconds literal, have 8 characters and scan as
  three integers. If a component is outside its range, \<open>parseTimeString\<close> fails with root
  cause \<open>ErrInvalidTimeComponent\<close>; if the components are in range with hour 24 and a
  nonzero minute or second, it fails with root cause \<open>ErrEndOfDayExceeded\<close>. \<open>Parse\<close> drops
  that error and fails with root cause \<open>ErrInvalidFormat\<close>. Every error that \<open>Parse\<close>
  returns has root cause \<open>ErrInvalidFormat\<close>.
\<close>

theorem Parse_root_cause:
  "(parseSeconds s = Inl e1 \<and> length s = 8 \<and> Sscanf_d_d_d s = Some (hour, minute, second) \<longrightarrow>
      (hour < 0 \<or> hour > 24 \<or> minute < 0 \<or> minute > 59 \<or> second < 0 \<or> second > 59 \<longrightarrow>
         (\<exists>e. parseTimeString s = Inl e \<and> errors_Is e ErrInvalidTimeComponent) \<and>
         (\<exists>e. Parse s = Inl e \<and> errors_Is e ErrInvalidFormat)) \<and>
      (hour = 24 \<and> 0 \<le> minute \<and> minute \<le> 59 \<and> 0 \<le> second \<and> second \<le> 59 \<and>
       (minute \<noteq> 0 \<or> second \<noteq> 0) \<longrightarrow>
         (\<exists>e. parseTimeString s = Inl e \<and> errors_Is e ErrEndOfDayExceeded) \<and>
         (\<exists>e. Parse s = Inl e \<and> errors_Is e ErrInvalidFormat))) \<and>
   (\<forall>e. Parse s = Inl e \<longrightarrow> errors_Is e ErrInvalidFormat)"
proof (intro conjI impI allI)
  fix e
  assume "Parse s = Inl e"
  then have "e = errorf ''Parse'' (AnyString s) ErrInvalidFormat"
    by (auto simp: Parse_def split: if_splits sum.splits)
  then show "errors_Is e ErrInvalidFormat"
    by (simp add: errors_Is_def Unwrap_def errorf_def)
next
  assume h: "parseSeconds s = Inl e1 \<and> length s = 8 \<and>
             Sscanf_d_d_d s = Some (hour, minute, second)"
    and bad: "hour < 0 \<or> hour > 24 \<or> minute < 0 \<or> minute > 59 \<or> second < 0 \<or> second > 59"
  have pts: "parseTimeString s = Inl (errorf ''parseTimeString''
                (AnyString (fmt_clock hour minute second)) ErrInvalidTimeComponent)"
    using h bad by (simp add: parseTimeString_def hoursInDay_def)
  then show "\<exists>e. parseTimeString s = Inl e \<and> errors_Is e ErrInvalidTimeComponent"
    by (simp add: errors_Is_def Unwrap_def errorf_def)
  have "s \<noteq> []" using h by auto
  then have "Parse s = Inl (errorf ''Parse'' (AnyString s) ErrInvalidFormat)"
    using h pts by (simp add: Parse_def)
  then show "\<exists>e. Parse s = Inl e \<and> errors_Is e ErrInvalidFormat"
    by (simp add: errors_Is_def Unwrap_def errorf_def)
next
  assume h: "parseSeconds s = Inl e1 \<and> length s = 8 \<and>
             Sscanf_d_d_d s = Some (hour, minute, second)"
    and eod: "hour = 24 \<and> 0 \<le> minute \<and> minute \<le> 59 \<and> 0 \<le> second \<and> second \<le> 59 \<and>
              (minute \<noteq> 0 \<or> second \<noteq> 0)"
  have pts: "parseTimeString s = Inl (errorf ''parseTimeString''
                (AnyString (fmt_clock hour minute second)) ErrEndOfDayExceeded)"
    using h eod by (simp add: parseTimeString_def hoursInDay_def)
  then show "\<exists>e. parseTimeString s = Inl e \<and> errors_Is e ErrEndOfDayExceeded"
    by (simp add: errors_Is_def Unwrap_def errorf_def)
  have "s \<noteq> []" using h by auto
  then have "Parse s = Inl (errorf ''Parse'' (AnyString s) ErrInvalidFormat)"
    using h pts by (simp add: Parse_def)
  then show "\<exists>e. Parse s = Inl e \<and> errors_Is e ErrInvalidFormat"
    by (simp add: errors_Is_def Unwrap_def errorf_def)
qed

theorem Parse_root_cause_witness:
  "parseSeconds ''25:00:00'' = Inl (errorf ''parseSeconds'' (AnyString ''25:00:00'') ErrInvalidFormat) \<and>
   length ''25:00:00'' = 8 \<and> Sscanf_d_d_d ''25:00:00'' = Some (25, 0, 0) \<and>
   (\<exists>e. parseTimeString ''25:00:00'' = Inl e \<and> errors_Is e ErrInvalidTimeComponent) \<and>
   (\<exists>e. Parse ''25:00:00'' = Inl e \<and> errors_Is e ErrInvalidFormat) \<and>
   parseSeconds ''24:00:01'' = Inl (errorf ''parseSeconds'' (AnyString ''24:00:01'') ErrInvalidFormat) \<and>
   Sscanf_d_d_d ''24:00:01'' = Some (24, 0, 1) \<and>
   (\<exists>e. parseTimeString ''24:00:01'' = Inl e \<and> errors_Is e ErrEndOfDayExceeded) \<and>
   (\<exists>e. Parse ''24:00:01'' = Inl e \<and> errors_Is e ErrInvalidFormat)"
proof -
  have a: "parseSeconds ''25:00:00'' =
             Inl (errorf ''parseSeconds'' (AnyString ''25:00:00'') ErrInvalidFormat)"
    by code_simp
  have b: "Sscanf_d_d_d ''25:00:00'' = Some (25, 0, 0)" by code_simp
  have c: "parseSeconds ''24:00:01'' =
             Inl (errorf ''parseSeconds'' (AnyString ''24:00:01'') ErrInvalidFormat)"
    by code_simp
  have d: "Sscanf_d_d_d ''24:00:01'' = Some (24, 0, 1)" by code_simp
  show ?thesis
    using a b c d
      Parse_root_cause [of "''25:00:00''" _ 25 0 0]
      Parse_root_cause [of "''24:00:01''" _ 24 0 1]
    by simp
qed

subsection \<open>The shape of a clock string\<close>

text \<open>
  C8 requires fixed-width two-digit fields and the rejection of padded or single-digit
  forms with \<open>ErrInvalidFormat\<close>. The code checks the length of 8 and then scans with
  \<open>%d:%d:%d\<close>, which skips white space before a number and ignores what follows the last
  one: both strings of the claim are accepted as 01:02:03.
\<close>

theorem Parse_accepts_padded_fields:
  "Parse '' 1:02:03'' = Inr 3723 \<and> Parse ''1:2:3   '' = Inr 3723 \<and>
   parseTimeString ''1:2:3'' = Inl (errorf ''parseTimeString'' (AnyString ''1:2:3'') ErrInvalidFormat)"
proof -
  have "Parse '' 1:02:03'' = Inr 3723" by code_simp
  moreover have "Parse ''1:2:3   '' = Inr 3723" by code_simp
  moreover have "parseTimeString ''1:2:3'' =
      Inl (errorf ''parseTimeString'' (AnyString ''1:2:3'') ErrInvalidFormat)"
    by code_simp
  ultimately show ?thesis by simp
qed

theorem Parse_accepts_padded_fields_witness:
  "Parse '' 1:02:03'' = Inr 3723 \<and> String 3723 = ''01:02:03''"
proof -
  have "String 3723 = ''01:02:03''" by code_simp
  then show ?thesis using Parse_accepts_padded_fields by simp
qed

end
